theory Spec2Isabelle
  imports Complex_Main "HOL-Library.Multiset"
begin

section \<open>Data model (types.ts)\<close>

text \<open>
  JavaScript numbers are modelled without rounding error: counters and day counts as
  \<open>int\<close>, the ease factor as \<open>rat\<close>. An instant (a \<open>Date\<close>, or the ISO string that
  \<open>toISOString\<close> prints and \<open>new Date\<close> reads back) is its number of milliseconds since
  the epoch, an \<open>int\<close>; a nullable ISO string is an \<open>int option\<close>, and a string that is
  present is not empty. Dates are taken to be valid ones, so that \<open>toISOString\<close> does
  not throw. Field names that several types of the source share carry the name of their
  type as a prefix.
\<close>

datatype WordStatus = New | In_progress | Completed

datatype Rating = Again | Hard | Good | Easy

datatype TrainingMode = Flashcards | Fill_blank | Spelling | Sentence

record Topic =
  topic_topicId :: string
  topic_name :: string
  topic_createdAt :: int

record WordEntry =
  word_id :: string
  topicId :: string
  wordOrPhrase :: string
  transcription :: string
  meaningEn :: string
  exampleUsage :: string
  translationUk :: string
  tags :: "string list"
  status :: WordStatus
  createdAt :: int
  updatedAt :: int
  dueAt :: "int option"
  intervalDays :: int
  ease :: rat
  reps :: int
  lapses :: int
  rightCount :: int
  wrongCount :: int
  skipCount :: int
  lastReviewedAt :: "int option"

section \<open>Rating engine and due classifier (srs.ts)\<close>

definition MIN_EASE :: rat where
  "MIN_EASE = 13 / 10"

text \<open>\<open>Math.round\<close>: the nearest integer, a tie going up.\<close>

definition Math_round :: "rat \<Rightarrow> int" where
  "Math_round x = \<lfloor>x + 1 / 2\<rfloor>"

definition addDays :: "int \<Rightarrow> int \<Rightarrow> int" where
  "addDays now days = now + days * 24 * 60 * 60 * 1000"

definition resolveStatus :: "WordEntry \<Rightarrow> Rating \<Rightarrow> WordStatus" where
  "resolveStatus word rating =
     (if status word = Completed \<and> rating = Again then In_progress
      else if reps word \<ge> 5 \<and> intervalDays word \<ge> 21 then Completed
      else if status word = New then In_progress
      else status word)"

definition rate_again :: "WordEntry \<Rightarrow> int \<Rightarrow> WordEntry" where
  "rate_again u now =
     u\<lparr>reps := 0,
       lapses := lapses u + 1,
       ease := max MIN_EASE (ease u - 2 / 10),
       intervalDays := 0,
       dueAt := Some (now + 10 * 60 * 1000)\<rparr>"

definition rate_hard :: "WordEntry \<Rightarrow> int \<Rightarrow> WordEntry" where
  "rate_hard u now =
     (let days = max 1 (Math_round (of_int (intervalDays u) * (12 / 10)))
      in u\<lparr>ease := max MIN_EASE (ease u - 5 / 100),
           intervalDays := days,
           dueAt := Some (addDays now days),
           reps := reps u + 1\<rparr>)"

definition rate_good :: "WordEntry \<Rightarrow> int \<Rightarrow> WordEntry" where
  "rate_good u now =
     (let days = (if reps u = 0 then 1
                  else if reps u = 1 then 3
                  else Math_round (of_int (intervalDays u) * ease u))
      in u\<lparr>intervalDays := days,
           dueAt := Some (addDays now days),
           reps := reps u + 1\<rparr>)"

definition rate_easy :: "WordEntry \<Rightarrow> int \<Rightarrow> WordEntry" where
  "rate_easy u now =
     (let e = ease u + 1 / 10;
          days = max 4 (Math_round (of_int (intervalDays u) * e * (13 / 10)))
      in u\<lparr>ease := e,
           intervalDays := days,
           dueAt := Some (addDays now days),
           reps := reps u + 1\<rparr>)"

text \<open>
  \<open>applyRating\<close> copies the word, stamps \<open>lastReviewedAt\<close>, runs the one block of the
  four whose rating matches (the blocks \<open>rate_again\<close> to \<open>rate_easy\<close> above, each the
  body of one \<open>if\<close> of the source), stamps \<open>updatedAt\<close> and resolves the status on the
  updated copy, whose \<open>status\<close> field is still the one of the word passed in.
\<close>

definition applyRating :: "WordEntry \<Rightarrow> Rating \<Rightarrow> int \<Rightarrow> WordEntry" where
  "applyRating word rating now =
     (let u0 = word\<lparr>lastReviewedAt := Some now\<rparr>;
          u1 = (if rating = Again then rate_again u0 now else u0);
          u2 = (if rating = Hard then rate_hard u1 now else u1);
          u3 = (if rating = Good then rate_good u2 now else u2);
          u4 = (if rating = Easy then rate_easy u3 now else u3);
          u5 = u4\<lparr>updatedAt := now\<rparr>
      in u5\<lparr>status := resolveStatus u5 rating\<rparr>)"

definition isDue :: "WordEntry \<Rightarrow> int \<Rightarrow> bool" where
  "isDue word now = (case dueAt word of None \<Rightarrow> True | Some d \<Rightarrow> d \<le> now)"

section \<open>Helpers (utils.ts)\<close>

text \<open>
  \<open>createWord\<close> takes the fresh identifier (\<open>uid()\<close>) and the clock reading
  (\<open>nowIso()\<close>) as arguments.
\<close>

definition createWord :: "string \<Rightarrow> int \<Rightarrow> string \<Rightarrow> WordEntry" where
  "createWord uid now tid =
     \<lparr>word_id = uid, topicId = tid, wordOrPhrase = [], transcription = [],
      meaningEn = [], exampleUsage = [], translationUk = [], tags = [],
      status = New, createdAt = now, updatedAt = now, dueAt = None,
      intervalDays = 0, ease = 25 / 10, reps = 0, lapses = 0, rightCount = 0,
      wrongCount = 0, skipCount = 0, lastReviewedAt = None\<rparr>"

text \<open>
  \<open>Math.random()\<close> is an input: the function that draws takes the drawn number \<open>r\<close>.
  JavaScript promises \<open>0 \<le> r < 1\<close>; then the index below is in range.
\<close>

definition pickRandom :: "rat \<Rightarrow> 'a list \<Rightarrow> 'a" where
  "pickRandom r items = items ! nat \<lfloor>r * of_nat (length items)\<rfloor>"

section \<open>Session builder (App.tsx)\<close>

datatype Origin = Origin_due | Origin_in_progress | Origin_new

datatype ConfigMode = Mixed | Fixed TrainingMode

record SessionItem =
  item_id :: string
  item_mode :: TrainingMode
  origin :: Origin

record SessionConfig =
  config_size :: int
  config_mode :: ConfigMode
  config_topicId :: string
  config_tags :: "string list"

record SessionStats =
  total :: int
  answered :: int
  correct :: int
  dueDone :: int
  newIntroduced :: int
  movedCompleted :: int
  stats_lapses :: int
  startedAt :: int
  finishedAt :: "int option"

definition MODES :: "TrainingMode list" where
  "MODES = [Flashcards, Fill_blank, Spelling, Sentence]"

text \<open>The callback of \<open>words.filter\<close> at the head of \<open>buildSession\<close>.\<close>

definition matchesConfig :: "SessionConfig \<Rightarrow> WordEntry \<Rightarrow> bool" where
  "matchesConfig config word =
     (if config_topicId config \<noteq> ''all'' \<and> topicId word \<noteq> config_topicId config then False
      else if config_tags config \<noteq> []
              \<and> \<not> list_ex (\<lambda>tag. tag \<in> set (tags word)) (config_tags config) then False
      else True)"

definition dueWords :: "int \<Rightarrow> WordEntry list \<Rightarrow> WordEntry list" where
  "dueWords now filtered = filter (\<lambda>word. status word \<noteq> New \<and> isDue word now) filtered"

definition inProgressWords :: "int \<Rightarrow> WordEntry list \<Rightarrow> WordEntry list" where
  "inProgressWords now filtered =
     filter (\<lambda>word. status word = In_progress \<and> \<not> isDue word now) filtered"

definition newWords :: "WordEntry list \<Rightarrow> WordEntry list" where
  "newWords filtered = filter (\<lambda>word. status word = New) filtered"

text \<open>
  \<open>Array.prototype.sort\<close> is stable, and both comparators are differences of a key, so
  the two sorts are stable sorts by that key: the due time (0 when absent), and the
  negated sum of lapses and wrong answers.
\<close>

definition dueSorted :: "WordEntry list \<Rightarrow> WordEntry list" where
  "dueSorted due = sort_key (\<lambda>a. case dueAt a of None \<Rightarrow> 0 | Some d \<Rightarrow> d) due"

definition inProgressSorted :: "WordEntry list \<Rightarrow> WordEntry list" where
  "inProgressSorted inProgress = sort_key (\<lambda>a. - (lapses a + wrongCount a)) inProgress"

definition dueTarget :: "int \<Rightarrow> int" where
  "dueTarget sz = min sz (Math_round (of_int sz * (6 / 10)))"

definition inProgressTarget :: "int \<Rightarrow> int" where
  "inProgressTarget sz = min (sz - dueTarget sz) (Math_round (of_int sz * (25 / 100)))"

definition newTarget :: "int \<Rightarrow> int" where
  "newTarget sz = max 0 (sz - dueTarget sz - inProgressTarget sz)"

text \<open>\<open>xs.slice(0, e)\<close>: a negative end counts from the end of the array.\<close>

definition slice0 :: "'a list \<Rightarrow> int \<Rightarrow> 'a list" where
  "slice0 xs e = (if e < 0 then take (nat (int (length xs) + e)) xs else take (nat e) xs)"

text \<open>
  The random numbers are a sequence \<open>rnd\<close>: the \<open>k\<close>-th call of \<open>Math.random()\<close>
  returns \<open>rnd k\<close>. \<open>pushItem\<close> works on the selection built so far and the number of
  draws made so far; it draws only for a mixed session.
\<close>

definition pushItem ::
  "(nat \<Rightarrow> rat) \<Rightarrow> SessionConfig \<Rightarrow> WordEntry \<Rightarrow> Origin
     \<Rightarrow> SessionItem list \<times> nat \<Rightarrow> SessionItem list \<times> nat" where
  "pushItem rnd config word orig st =
     (case config_mode config of
        Mixed \<Rightarrow>
          (fst st @ [\<lparr>item_id = word_id word, item_mode = pickRandom (rnd (snd st)) MODES,
                      origin = orig\<rparr>], Suc (snd st))
      | Fixed m \<Rightarrow>
          (fst st @ [\<lparr>item_id = word_id word, item_mode = m, origin = orig\<rparr>], snd st))"

text \<open>\<open>ws.forEach((word) => pushItem(word, orig word))\<close>.\<close>

definition pushItems ::
  "(nat \<Rightarrow> rat) \<Rightarrow> SessionConfig \<Rightarrow> (WordEntry \<Rightarrow> Origin) \<Rightarrow> WordEntry list
     \<Rightarrow> SessionItem list \<times> nat \<Rightarrow> SessionItem list \<times> nat" where
  "pushItems rnd config orig ws st = foldl (\<lambda>st word. pushItem rnd config word (orig word) st) st ws"

text \<open>
  The loop of \<open>shuffle\<close>, for \<open>i\<close> from \<open>length - 1\<close> down to 1: the first argument
  after the random source is the number of draws made so far, the second is \<open>i\<close>.
\<close>

fun shuffle_loop :: "(nat \<Rightarrow> rat) \<Rightarrow> nat \<Rightarrow> nat \<Rightarrow> 'a list \<Rightarrow> 'a list" where
  "shuffle_loop rnd k 0 copy = copy"
| "shuffle_loop rnd k (Suc n) copy =
     (let i = Suc n;
          j = nat \<lfloor>rnd k * of_nat (i + 1)\<rfloor>
      in shuffle_loop rnd (Suc k) n (copy[i := copy ! j, j := copy ! i]))"

definition shuffle :: "(nat \<Rightarrow> rat) \<Rightarrow> nat \<Rightarrow> 'a list \<Rightarrow> 'a list" where
  "shuffle rnd k list = shuffle_loop rnd k (length list - 1) list"

text \<open>The selection before the backfill: the three buckets, cut to their targets.\<close>

definition bucketSelection ::
  "(nat \<Rightarrow> rat) \<Rightarrow> SessionConfig \<Rightarrow> int \<Rightarrow> WordEntry list \<Rightarrow> SessionItem list \<times> nat" where
  "bucketSelection rnd config now filtered =
     (let sz = config_size config;
          st1 = pushItems rnd config (\<lambda>word. Origin_due)
                  (slice0 (dueSorted (dueWords now filtered)) (dueTarget sz)) ([], 0);
          st2 = pushItems rnd config (\<lambda>word. Origin_in_progress)
                  (slice0 (inProgressSorted (inProgressWords now filtered)) (inProgressTarget sz)) st1
      in pushItems rnd config (\<lambda>word. Origin_new)
           (slice0 (newWords filtered) (newTarget sz)) st2)"

definition backfill ::
  "(nat \<Rightarrow> rat) \<Rightarrow> SessionConfig \<Rightarrow> WordEntry list
     \<Rightarrow> SessionItem list \<times> nat \<Rightarrow> SessionItem list \<times> nat" where
  "backfill rnd config filtered st =
     (let sz = config_size config;
          selection = fst st
      in if int (length selection) < sz then
           (let remaining =
                  filter (\<lambda>word. \<not> list_ex (\<lambda>s. item_id s = word_id word) selection) filtered
            in pushItems rnd config
                 (\<lambda>word. if status word = New then Origin_new else Origin_in_progress)
                 (slice0 remaining (sz - int (length selection))) st)
         else st)"

definition buildSession ::
  "(nat \<Rightarrow> rat) \<Rightarrow> WordEntry list \<Rightarrow> SessionConfig \<Rightarrow> int \<Rightarrow> SessionItem list" where
  "buildSession rnd words config now =
     (let filtered = filter (matchesConfig config) words;
          st = backfill rnd config filtered (bucketSelection rnd config now filtered)
      in shuffle rnd (snd st) (fst st))"

section \<open>Persistent store (db.ts)\<close>

text \<open>
  The two object stores are keyed by \<open>topicId\<close> and \<open>id\<close>; \<open>put\<close> inserts or
  overwrites the record under its key. Requests are taken to succeed.
\<close>

record Db =
  topics_store :: "string \<rightharpoonup> Topic"
  words_store :: "string \<rightharpoonup> WordEntry"

definition putTopic :: "Topic \<Rightarrow> Db \<Rightarrow> Db" where
  "putTopic topic db = db\<lparr>topics_store := (topics_store db)(topic_topicId topic \<mapsto> topic)\<rparr>"

definition putWord :: "WordEntry \<Rightarrow> Db \<Rightarrow> Db" where
  "putWord word db = db\<lparr>words_store := (words_store db)(word_id word \<mapsto> word)\<rparr>"

definition clearAll :: "Db \<Rightarrow> Db" where
  "clearAll db = db\<lparr>topics_store := Map.empty, words_store := Map.empty\<rparr>"

section \<open>Session runtime and import (App.tsx)\<close>

datatype View = Manage | Train | Stats

datatype ImportMode = Merge | Replace

datatype SpellingPrompt = Meaning | Translation

text \<open>
  The state of the component that the session and the import read or write, and the
  store; the word form and the filters of the word list are left out. \<open>timerPending\<close>
  says that the timeout set by \<open>handleStartSession\<close> has neither fired nor been cleared.
\<close>

record App =
  topics :: "Topic list"
  words :: "WordEntry list"
  view :: View
  sessionConfig :: SessionConfig
  sessionQueue :: "SessionItem list"
  sessionIndex :: nat
  sessionStats :: SessionStats
  timerPending :: bool
  sessionAttempts :: "string \<rightharpoonup> int"
  sessionSeen :: "string \<rightharpoonup> bool"
  sessionMode :: TrainingMode
  answer :: string
  showAnswer :: bool
  hintStep :: int
  pendingRating :: "Rating option"
  spellingPrompt :: SpellingPrompt
  spellingMistakes :: int
  importMode :: ImportMode
  message :: string
  db :: Db

record AppData =
  schemaVersion :: int
  data_topics :: "Topic list option"
  data_words :: "WordEntry list option"

definition SCHEMA_VERSION :: int where
  "SCHEMA_VERSION = 1"

definition emptyStats :: "int \<Rightarrow> SessionStats" where
  "emptyStats now =
     \<lparr>total = 0, answered = 0, correct = 0, dueDone = 0, newIntroduced = 0,
      movedCompleted = 0, stats_lapses = 0, startedAt = now, finishedAt = None\<rparr>"

text \<open>\<open>notify\<close> shows the text; the timer that hides it again is left out.\<close>

definition notify :: "string \<Rightarrow> App \<Rightarrow> App" where
  "notify text s = s\<lparr>message := text\<rparr>"














text \<open>
  \<open>handleImport\<close> on the parsed document; \<open>None\<close> stands for a document that is
  \<open>null\<close>, and an absent list for a field that is not an array. \<open>map_set\<close> is
  \<open>Map.prototype.set\<close> on the entries of a \<open>Map\<close> in insertion order.
\<close>

fun map_set :: "'k \<Rightarrow> 'v \<Rightarrow> ('k \<times> 'v) list \<Rightarrow> ('k \<times> 'v) list" where
  "map_set k v [] = [(k, v)]"
| "map_set k v (p # ps) = (if fst p = k then (k, v) # ps else p # map_set k v ps)"

definition handleImport :: "AppData option \<Rightarrow> App \<Rightarrow> App" where
  "handleImport parsed s =
     (case parsed of
        None \<Rightarrow> notify ''Invalid schema.'' s
      | Some p \<Rightarrow>
     (case data_topics p of
        None \<Rightarrow> notify ''Invalid schema.'' s
      | Some ptopics \<Rightarrow>
     (case data_words p of
        None \<Rightarrow> notify ''Invalid schema.'' s
      | Some pwords \<Rightarrow>
          if schemaVersion p \<noteq> SCHEMA_VERSION
          then notify ''Schema version mismatch. Only v1 supported.'' s
          else if importMode s = Replace then
            (let d0 = clearAll (db s);
                 d1 = foldl (\<lambda>d topic. putTopic topic d) d0 ptopics;
                 d2 = foldl (\<lambda>d word. putWord word d) d1 pwords
             in notify ''Imported (replace).'' (s\<lparr>db := d2, topics := ptopics, words := pwords\<rparr>))
          else
            (let topicMap = foldl (\<lambda>m t. map_set (topic_topicId t) t m) [] (ptopics @ topics s);
                 wordMap = foldl (\<lambda>m w. map_set (word_id w) w m) [] (pwords @ words s);
                 mergedTopics = map snd topicMap;
                 mergedWords = map snd wordMap;
                 d1 = foldl (\<lambda>d topic. putTopic topic d) (db s) mergedTopics;
                 d2 = foldl (\<lambda>d word. putWord word d) d1 mergedWords
             in notify ''Imported (merge).'' (s\<lparr>db := d2, topics := mergedTopics, words := mergedWords\<rparr>)))))"

section \<open>Auxiliary definitions for the proofs\<close>

text \<open>
  The words that the three buckets contribute to the selection, in the order in which
  \<open>buildSession\<close> pushes them, for a size that is not negative.
\<close>

definition selectedWords :: "SessionConfig \<Rightarrow> int \<Rightarrow> WordEntry list \<Rightarrow> WordEntry list" where
  "selectedWords config now filtered =
     take (nat (dueTarget (config_size config))) (dueSorted (dueWords now filtered))
     @ take (nat (inProgressTarget (config_size config)))
         (inProgressSorted (inProgressWords now filtered))
     @ take (nat (newTarget (config_size config))) (newWords filtered)"

section \<open>Concrete inputs\<close>

definition demo_word :: "string \<Rightarrow> WordStatus \<Rightarrow> int option \<Rightarrow> WordEntry" where
  "demo_word uid st due = (createWord uid 0 ''t1'')\<lparr>status := st, dueAt := due\<rparr>"

definition demo_config :: "int \<Rightarrow> SessionConfig" where
  "demo_config sz =
     \<lparr>config_size = sz, config_mode = Mixed, config_topicId = ''all'', config_tags = []\<rparr>"

definition demo_app :: "WordEntry list \<Rightarrow> SessionConfig \<Rightarrow> App" where
  "demo_app ws config =
     \<lparr>topics = [], words = ws, view = Manage, sessionConfig = config, sessionQueue = [],
      sessionIndex = 0, sessionStats = emptyStats 0, timerPending = False,
      sessionAttempts = Map.empty, sessionSeen = Map.empty, sessionMode = Flashcards,
      answer = [], showAnswer = False, hintStep = 0, pendingRating = None,
      spellingPrompt = Meaning, spellingMistakes = 0, importMode = Merge, message = [],
      db = \<lparr>topics_store = Map.empty, words_store = Map.empty\<rparr>\<rparr>"






text \<open>
  A snapshot in which two records share the identifier \<open>w1\<close>: one in progress and due,
  one completed and due in the future. Imported with the replace policy it becomes the
  pool as it is.
\<close>

definition demo_snapshot :: AppData where
  "demo_snapshot =
     \<lparr>schemaVersion = 1,
      data_topics = Some [\<lparr>topic_topicId = ''t1'', topic_name = ''Travel'', topic_createdAt = 0\<rparr>],
      data_words = Some [demo_word ''w1'' In_progress None,
                         demo_word ''w1'' Completed (Some 5000)]\<rparr>"

definition demo_imported :: App where
  "demo_imported = handleImport (Some demo_snapshot) ((demo_app [] (demo_config 2))\<lparr>importMode := Replace\<rparr>)"

text \<open>Pools with distinct identifiers: words \<open>d\<close>, \<open>dx\<close>, \<open>dxx\<close>, ... and so on.\<close>

definition demo_words :: "char \<Rightarrow> WordStatus \<Rightarrow> int option \<Rightarrow> nat \<Rightarrow> WordEntry list" where
  "demo_words c st due n = map (\<lambda>i. demo_word (c # replicate i CHR ''x'') st due) [0..<n]"

definition demo_small_pool :: "WordEntry list" where
  "demo_small_pool =
     demo_words CHR ''d'' In_progress None 1 @ demo_words CHR ''c'' Completed (Some 5000) 1
     @ demo_words CHR ''n'' New None 1"

definition demo_pool :: "WordEntry list" where
  "demo_pool =
     demo_words CHR ''d'' In_progress (Some 500) 6 @ demo_words CHR ''p'' In_progress (Some 5000) 10
     @ demo_words CHR ''n'' New None 20"

section \<open>The rating engine\<close>

lemmas rate_defs = rate_again_def rate_hard_def rate_good_def rate_easy_def

text \<open>
  Claim C1 as stated fails: a word whose ease factor is below the floor keeps it when it
  is rated good, since that branch does not touch the ease factor. Here a word with ease 1
  is rated good and the result has ease below 1.3.
\<close>

theorem applyRating_ease_counterexample:
  "\<not> 13 / 10 \<le> ease (applyRating ((createWord ''w1'' 0 ''t1'')\<lparr>ease := 1\<rparr>) Good 1000)"
  by (simp add: applyRating_def rate_defs createWord_def Let_def)

text \<open>
  Claim C1, amended: the result of \<open>applyRating\<close> has an ease factor of at least 1.3
  whenever the rating is again or hard, or the word passed in already has an ease factor
  of at least 1.3.
\<close>

theorem applyRating_ease_floor:
  "rating = Again \<or> rating = Hard \<or> 13 / 10 \<le> ease word
   \<Longrightarrow> 13 / 10 \<le> ease (applyRating word rating now)"
  by (cases rating) (auto simp: applyRating_def rate_defs MIN_EASE_def Let_def)

text \<open>
  C1, at concrete words: a fresh word (ease 2.5) rated good and rated easy, and a word with
  ease 1 rated again.
\<close>

theorem applyRating_ease_floor_witness:
  "13 / 10 \<le> ease (createWord ''w1'' 0 ''t1'')
   \<and> 13 / 10 \<le> ease (applyRating (createWord ''w1'' 0 ''t1'') Good 1000)
   \<and> 13 / 10 \<le> ease (applyRating (createWord ''w1'' 0 ''t1'') Easy 1000)
   \<and> 13 / 10 \<le> ease (applyRating ((createWord ''w1'' 0 ''t1'')\<lparr>ease := 1\<rparr>) Again 1000)"
  using applyRating_ease_floor [of Good "createWord ''w1'' 0 ''t1''" 1000]
    applyRating_ease_floor [of Easy "createWord ''w1'' 0 ''t1''" 1000]
    applyRating_ease_floor [of Again "(createWord ''w1'' 0 ''t1'')\<lparr>ease := 1\<rparr>" 1000]
  by (simp add: createWord_def)



text \<open>
  Claim C3: the status of the result follows the four rules in order, on the status of the
  word passed in and the \<open>reps\<close> and \<open>intervalDays\<close> of the result: completed and rated
  again gives in progress; else five or more repetitions and an interval of 21 days or more
  give completed; else new gives in progress; else the status stays.
\<close>

theorem applyRating_status:
  "status (applyRating w r t) =
     (if status w = Completed \<and> r = Again then In_progress
      else if reps (applyRating w r t) \<ge> 5 \<and> intervalDays (applyRating w r t) \<ge> 21 then Completed
      else if status w = New then In_progress
      else status w)"
  by (cases r) (auto simp: applyRating_def rate_defs resolveStatus_def Let_def)

text \<open>
  C3, at concrete words: a completed word rated again; a word in progress with four
  repetitions and an interval of 7 days rated good with ease 3 (21 days: completed) and
  with ease 20/7 (20 days: not completed); a new word rated good.
\<close>

theorem applyRating_status_witness:
  "status (applyRating (demo_word ''w1'' Completed None) Again 1000) = In_progress
   \<and> status (applyRating ((demo_word ''w1'' In_progress None)
               \<lparr>reps := 4, intervalDays := 7, ease := 3\<rparr>) Good 1000) = Completed
   \<and> status (applyRating ((demo_word ''w1'' In_progress None)
               \<lparr>reps := 4, intervalDays := 7, ease := 20 / 7\<rparr>) Good 1000) = In_progress
   \<and> status (applyRating (demo_word ''w1'' New None) Good 1000) = In_progress"
proof -
  have r: "Math_round (rat_of_int 7 * 3) = 21" "Math_round (rat_of_int 7 * (20 / 7)) = 20"
    by code_simp+
  show ?thesis
    using applyRating_status [of "demo_word ''w1'' Completed None" Again 1000]
      applyRating_status [of "(demo_word ''w1'' In_progress None)
               \<lparr>reps := 4, intervalDays := 7, ease := 3\<rparr>" Good 1000]
      applyRating_status [of "(demo_word ''w1'' In_progress None)
               \<lparr>reps := 4, intervalDays := 7, ease := 20 / 7\<rparr>" Good 1000]
      applyRating_status [of "demo_word ''w1'' New None" Good 1000] r
    by (simp add: applyRating_def rate_defs demo_word_def createWord_def Let_def)
qed



text \<open>
  Claim C10: the result of \<open>applyRating\<close> always has a due time: ten minutes after \<open>t\<close>
  for again, \<open>t\<close> plus the new interval in days otherwise. So \<open>isDue\<close> on the result
  is the comparison of that time with the clock, never the answer for an absent time.
\<close>

theorem applyRating_dueAt:
  "dueAt (applyRating w r t) \<noteq> None
   \<and> dueAt (applyRating w r t)
       = Some (if r = Again then t + 10 * 60 * 1000
               else t + intervalDays (applyRating w r t) * (24 * 60 * 60 * 1000))
   \<and> isDue (applyRating w r t) now
       = ((if r = Again then t + 10 * 60 * 1000
           else t + intervalDays (applyRating w r t) * (24 * 60 * 60 * 1000)) \<le> now)"
  by (cases r) (simp_all add: applyRating_def rate_defs addDays_def isDue_def Let_def mult.commute)

text \<open>
  C10, at a fresh word, which is due by absence before the rating: rated again at time
  1000 it is not due at 2000 and due at 601000; rated good it is due one day later.
\<close>

theorem applyRating_dueAt_witness:
  "isDue (createWord ''w1'' 0 ''t1'') 2000
   \<and> dueAt (applyRating (createWord ''w1'' 0 ''t1'') Again 1000) = Some 601000
   \<and> \<not> isDue (applyRating (createWord ''w1'' 0 ''t1'') Again 1000) 2000
   \<and> isDue (applyRating (createWord ''w1'' 0 ''t1'') Again 1000) 601000
   \<and> dueAt (applyRating (createWord ''w1'' 0 ''t1'') Good 1000) = Some 86401000
   \<and> \<not> isDue (applyRating (createWord ''w1'' 0 ''t1'') Good 1000) 86400999"
proof -
  have i: "intervalDays (applyRating (createWord ''w1'' 0 ''t1'') Good 1000) = 1"
    by (simp add: applyRating_def rate_defs createWord_def Let_def)
  show ?thesis
    using applyRating_dueAt [of "createWord ''w1'' 0 ''t1''" Again 1000 2000]
      applyRating_dueAt [of "createWord ''w1'' 0 ''t1''" Again 1000 601000]
      applyRating_dueAt [of "createWord ''w1'' 0 ''t1''" Good 1000 86400999] i
    by (simp add: createWord_def isDue_def)
qed

section \<open>The session builder\<close>

subsection \<open>Targets and slices\<close>

lemma Math_round_nonneg: "0 \<le> x \<Longrightarrow> 0 \<le> Math_round x"
  by (simp add: Math_round_def)

lemma dueTarget_bounds: "0 \<le> sz \<Longrightarrow> 0 \<le> dueTarget sz \<and> dueTarget sz \<le> sz"
  by (simp add: dueTarget_def Math_round_nonneg)

lemma inProgressTarget_bounds:
  "0 \<le> sz \<Longrightarrow> 0 \<le> inProgressTarget sz \<and> inProgressTarget sz \<le> sz - dueTarget sz"
  using dueTarget_bounds[of sz] by (simp add: inProgressTarget_def Math_round_nonneg)

lemma targets_sum:
  "0 \<le> sz \<Longrightarrow> 0 \<le> newTarget sz \<and> dueTarget sz + inProgressTarget sz + newTarget sz = sz"
  using inProgressTarget_bounds[of sz] by (simp add: newTarget_def)

lemma slice0_take: "0 \<le> e \<Longrightarrow> slice0 xs e = take (nat e) xs"
  by (simp add: slice0_def)

subsection \<open>Pushing items\<close>

lemma pushItem_fst:
  "map item_id (fst (pushItem rnd c w orig st)) = map item_id (fst st) @ [word_id w]"
  "map origin (fst (pushItem rnd c w orig st)) = map origin (fst st) @ [orig]"
  by (simp_all add: pushItem_def split: ConfigMode.splits)

lemma pushItems_ids:
  "map item_id (fst (pushItems rnd c orig ws st)) = map item_id (fst st) @ map word_id ws"
  unfolding pushItems_def
  by (induction ws arbitrary: st) (simp_all add: pushItem_fst)

lemma pushItems_origins:
  "map origin (fst (pushItems rnd c orig ws st)) = map origin (fst st) @ map orig ws"
  unfolding pushItems_def
  by (induction ws arbitrary: st) (simp_all add: pushItem_fst)

lemma pushItems_length:
  "length (fst (pushItems rnd c orig ws st)) = length (fst st) + length ws"
  using arg_cong[OF pushItems_ids[of rnd c orig ws st], of length] by simp

subsection \<open>The shuffle permutes\<close>

lemma shuffle_loop_length: "length (shuffle_loop rnd k n xs) = length xs"
  by (induction n arbitrary: k xs) (simp_all add: Let_def)

lemma shuffle_length: "length (shuffle rnd k xs) = length xs"
  by (simp add: shuffle_def shuffle_loop_length)

lemma draw_index:
  fixes r :: rat
  assumes "0 \<le> r" "r < 1"
  shows "nat \<lfloor>r * of_nat (Suc m)\<rfloor> \<le> m"
proof -
  have "r * of_nat (Suc m) < of_nat (Suc m)" using assms by simp
  then have "\<lfloor>r * of_nat (Suc m)\<rfloor> < int (Suc m)" by (simp add: floor_less_iff)
  then show ?thesis by linarith
qed

lemma shuffle_loop_mset:
  assumes "\<forall>k. 0 \<le> rnd k \<and> rnd k < 1"
  shows "n < length xs \<Longrightarrow> mset (shuffle_loop rnd k n xs) = mset xs"
proof (induction n arbitrary: k xs)
  case 0
  then show ?case by simp
next
  case (Suc n)
  let ?j = "nat \<lfloor>rnd k * of_nat (Suc n + 1)\<rfloor>"
  have "?j \<le> Suc n" using draw_index[of "rnd k" "Suc n"] assms by simp
  then have j: "?j < length xs" using Suc.prems by simp
  have sw: "mset (xs[Suc n := xs ! ?j, ?j := xs ! Suc n]) = mset xs"
    using mset_swap[OF j Suc.prems] .
  have "n < length (xs[Suc n := xs ! ?j, ?j := xs ! Suc n])" using Suc.prems by simp
  from Suc.IH[OF this] sw show ?case by (simp add: Let_def)
qed

lemma shuffle_mset:
  assumes "\<forall>k. 0 \<le> rnd k \<and> rnd k < 1"
  shows "mset (shuffle rnd k xs) = mset xs"
proof (cases xs)
  case Nil
  then show ?thesis by (simp add: shuffle_def)
next
  case (Cons a list)
  then show ?thesis using shuffle_loop_mset[OF assms, of "length xs - 1" xs k]
    by (simp add: shuffle_def)
qed

lemma count_filter_mset_eq:
  "mset xs = mset ys \<Longrightarrow> length (filter P xs) = length (filter P ys)"
  by (metis mset_filter size_mset)


lemma bucketSelection_ids:
  assumes "0 \<le> config_size config"
  shows "map item_id (fst (bucketSelection rnd config now filtered))
         = map word_id (selectedWords config now filtered)"
  using dueTarget_bounds[OF assms] inProgressTarget_bounds[OF assms] targets_sum[OF assms]
  by (simp add: bucketSelection_def selectedWords_def Let_def pushItems_ids slice0_take)

lemma bucketSelection_length:
  assumes "0 \<le> config_size config"
  shows "length (fst (bucketSelection rnd config now filtered))
         = length (selectedWords config now filtered)"
  using arg_cong[OF bucketSelection_ids[OF assms, of rnd now filtered], of length] by simp

lemma selectedWords_length_le:
  assumes "0 \<le> config_size config"
  shows "int (length (selectedWords config now filtered)) \<le> config_size config"
  using dueTarget_bounds[OF assms] inProgressTarget_bounds[OF assms] targets_sum[OF assms]
  unfolding selectedWords_def length_append length_take by linarith

lemma selectedWords_subset: "set (selectedWords config now filtered) \<subseteq> set filtered"
  by (auto simp: selectedWords_def dueSorted_def inProgressSorted_def dueWords_def
      inProgressWords_def newWords_def dest!: in_set_takeD)

lemma selectedWords_distinct:
  assumes "distinct filtered"
  shows "distinct (selectedWords config now filtered)"
  using assms
  by (auto simp: selectedWords_def dueSorted_def inProgressSorted_def dueWords_def
      inProgressWords_def newWords_def dest!: in_set_takeD)

lemma backfill_length:
  assumes "0 \<le> config_size config"
    and "length (fst st) = n"
  shows "length (fst (backfill rnd config filtered st)) =
     (if int n < config_size config
      then n + min (nat (config_size config - int n))
                 (length (filter (\<lambda>word. word_id word \<notin> item_id ` set (fst st)) filtered))
      else n)"
proof -
  have *: "(\<lambda>word. \<not> list_ex (\<lambda>s. item_id s = word_id word) (fst st))
           = (\<lambda>word. word_id word \<notin> item_id ` set (fst st))"
    by (rule ext) (force simp: list_ex_iff)
  show ?thesis using assms
    by (simp add: backfill_def Let_def pushItems_length slice0_take * min.commute)
qed

lemma remaining_length:
  assumes "distinct (map f xs)" "set ws \<subseteq> set xs" "distinct ws"
  shows "length (filter (\<lambda>x. f x \<notin> f ` set ws) xs) = length xs - length ws"
proof -
  have inj: "inj_on f (set xs)" and d: "distinct xs" using assms(1) by (simp_all add: distinct_map)
  have "filter (\<lambda>x. f x \<notin> f ` set ws) xs = filter (\<lambda>x. x \<notin> set ws) xs"
    using inj assms(2) by (intro filter_cong refl) (auto dest: inj_onD)
  moreover have "{x. x \<notin> set ws} \<inter> set xs = set xs - set ws" by auto
  then have "length (filter (\<lambda>x. x \<notin> set ws) xs) = card (set xs - set ws)"
    using d by (simp add: distinct_length_filter)
  moreover have "card (set xs - set ws) = card (set xs) - card (set ws)"
    using assms(2) by (intro card_Diff_subset) auto
  ultimately show ?thesis using d assms(3) by (simp add: distinct_card)
qed

text \<open>
  Claim C7 as stated fails on a pool in which two records share an identifier, which the
  replace import produces from a snapshot that lists an identifier twice: the backfill
  leaves out every word whose identifier is already selected. Here two words pass the
  filters and the size is 2, but the queue has one item.
\<close>

theorem buildSession_length_counterexample:
  "0 < config_size (demo_config 2)
   \<and> length (filter (matchesConfig (demo_config 2)) (words demo_imported)) = 2
   \<and> length (buildSession (\<lambda>k. 0) (words demo_imported) (demo_config 2) 1000) = 1"
  by code_simp

text \<open>
  Claim C7, amended: for a positive size the queue is never longer than the size and is
  empty exactly when no word passes the filters; and for a pool whose identifiers are
  pairwise distinct its length is the minimum of the size and the number of words that
  pass the filters.
\<close>

theorem buildSession_length:
  assumes pos: "0 < config_size config"
    and flt: "filtered = filter (matchesConfig config) pool"
    and q: "queue = buildSession rnd pool config now"
  shows "int (length queue) \<le> config_size config
    \<and> (queue = []) = (filtered = [])
    \<and> (distinct (map word_id pool) \<longrightarrow>
          int (length queue) = min (config_size config) (int (length filtered)))"
proof -
  have nn: "0 \<le> config_size config" using pos by simp
  let ?W = "selectedWords config now filtered"
  let ?st = "bucketSelection rnd config now filtered"
  let ?R = "filter (\<lambda>word. word_id word \<notin> item_id ` set (fst ?st)) filtered"
  have len: "length queue =
     (if int (length ?W) < config_size config
      then length ?W + min (nat (config_size config - int (length ?W))) (length ?R)
      else length ?W)"
    unfolding q buildSession_def Let_def flt [symmetric] shuffle_length
    using backfill_length[OF nn bucketSelection_length[OF nn], of rnd filtered rnd now filtered] by simp
  have le: "int (length ?W) \<le> config_size config" by (rule selectedWords_length_le[OF nn])
  have ids: "item_id ` set (fst ?st) = word_id ` set ?W"
    using arg_cong[OF bucketSelection_ids[OF nn, of rnd now filtered], of set] by simp
  have c1: "int (length queue) \<le> config_size config" using len le by (simp split: if_splits)
  have c2: "(queue = []) = (filtered = [])"
  proof (cases "filtered = []")
    case True
    then have "?W = []" "?R = []" using selectedWords_subset[of config now filtered] by simp_all
    then have "length queue = 0" using len by (simp split: if_splits)
    with True show ?thesis by simp
  next
    case False
    show ?thesis
    proof (cases "?W = []")
      case True
      then have "?R = filtered" using ids by simp
      with True len pos have "length queue = min (nat (config_size config)) (length filtered)"
        by simp
      with False pos have "0 < length queue" by simp
      with False show ?thesis by simp
    next
      case W: False
      then have "0 < length queue" using len by (simp split: if_splits)
      with False show ?thesis by simp
    qed
  qed
  have c3: "int (length queue) = min (config_size config) (int (length filtered))"
    if d: "distinct (map word_id pool)"
  proof -
    have df: "distinct (map word_id filtered)" unfolding flt using d by (rule distinct_map_filter)
    then have "distinct filtered" by (simp add: distinct_map)
    then have dW: "distinct ?W" by (rule selectedWords_distinct)
    have R: "length ?R = length filtered - length ?W"
      unfolding ids by (rule remaining_length[OF df selectedWords_subset dW])
    have wf: "length ?W \<le> length filtered"
      using distinct_card[OF dW] card_mono[OF _ selectedWords_subset, of filtered config now]
        card_length[of filtered] by simp
    show ?thesis
    proof (cases "int (length ?W) < config_size config")
      case True
      with len R have "length queue = length ?W
          + min (nat (config_size config - int (length ?W))) (length filtered - length ?W)"
        by simp
      with True wf show ?thesis by linarith
    next
      case False
      with len le have "int (length queue) = config_size config" "length queue = length ?W"
        by simp_all
      with wf show ?thesis by linarith
    qed
  qed
  show ?thesis using c1 c2 c3 by blast
qed


text \<open>
  C7, at a pool of three words with distinct identifiers and size 5 (the pool cannot fill
  the session), and at a pool of 36 words and size 10.
\<close>

theorem buildSession_length_witness:
  "0 < config_size (demo_config 5)
   \<and> distinct (map word_id demo_small_pool)
   \<and> length (filter (matchesConfig (demo_config 5)) demo_small_pool) = 3
   \<and> length (buildSession (\<lambda>k. 0) demo_small_pool (demo_config 5) 1000) = 3
   \<and> distinct (map word_id demo_pool)
   \<and> length (filter (matchesConfig (demo_config 10)) demo_pool) = 36
   \<and> length (buildSession (\<lambda>k. 1 / 2) demo_pool (demo_config 10) 1000) = 10"
proof -
  have p5: "0 < config_size (demo_config 5)" and p10: "0 < config_size (demo_config 10)"
    by (simp_all add: demo_config_def)
  have d: "distinct (map word_id demo_small_pool)" "distinct (map word_id demo_pool)"
    by code_simp+
  have f: "length (filter (matchesConfig (demo_config 5)) demo_small_pool) = 3"
    "length (filter (matchesConfig (demo_config 10)) demo_pool) = 36"
    by code_simp+
  show ?thesis
    using buildSession_length [OF p5 refl refl, where pool = demo_small_pool
        and rnd = "\<lambda>k. 0" and now = 1000]
      buildSession_length [OF p10 refl refl, where pool = demo_pool
        and rnd = "\<lambda>k. 1 / 2" and now = 1000] d f
    by (simp add: demo_config_def)
qed

lemma bucketSelection_origins:
  assumes "0 \<le> config_size config"
  shows "map origin (fst (bucketSelection rnd config now filtered))
     = replicate (length (take (nat (dueTarget (config_size config)))
                            (dueSorted (dueWords now filtered)))) Origin_due
       @ replicate (length (take (nat (inProgressTarget (config_size config)))
                              (inProgressSorted (inProgressWords now filtered)))) Origin_in_progress
       @ replicate (length (take (nat (newTarget (config_size config))) (newWords filtered)))
           Origin_new"
  using dueTarget_bounds[OF assms] inProgressTarget_bounds[OF assms] targets_sum[OF assms]
  by (simp add: bucketSelection_def Let_def pushItems_origins slice0_take map_replicate_const)

lemma count_origin:
  "length (filter (\<lambda>it. origin it = x) xs) = length (filter (\<lambda>y. y = x) (map origin xs))"
  by (simp add: comp_def)

text \<open>
  Claim C8: when the size is not negative, the random numbers lie in the unit interval
  and each bucket of the filtered pool holds at least its target, the queue has exactly
  \<open>dueTarget\<close> items of origin due, \<open>inProgressTarget\<close> of origin in progress and
  \<open>newTarget\<close> of origin new, \<open>size\<close> items in all, with the targets computed as the
  claim says; for size 10 these are 6, 3 and 1.
\<close>

theorem buildSession_bucket_counts:
  assumes nn: "0 \<le> config_size config"
    and rnd: "\<forall>k. 0 \<le> rnd k \<and> rnd k < 1"
    and flt: "filtered = filter (matchesConfig config) pool"
    and d: "dueTarget (config_size config) \<le> int (length (dueWords now filtered))"
    and i: "inProgressTarget (config_size config) \<le> int (length (inProgressWords now filtered))"
    and n: "newTarget (config_size config) \<le> int (length (newWords filtered))"
    and q: "queue = buildSession rnd pool config now"
  shows "int (length (filter (\<lambda>it. origin it = Origin_due) queue)) = dueTarget (config_size config)
    \<and> int (length (filter (\<lambda>it. origin it = Origin_in_progress) queue))
        = inProgressTarget (config_size config)
    \<and> int (length (filter (\<lambda>it. origin it = Origin_new) queue)) = newTarget (config_size config)
    \<and> int (length queue) = config_size config
    \<and> dueTarget (config_size config)
        = min (config_size config) (Math_round (of_int (config_size config) * (6 / 10)))
    \<and> inProgressTarget (config_size config)
        = min (config_size config - dueTarget (config_size config))
            (Math_round (of_int (config_size config) * (25 / 100)))
    \<and> newTarget (config_size config)
        = max 0 (config_size config - dueTarget (config_size config)
                   - inProgressTarget (config_size config))
    \<and> (config_size config = 10 \<longrightarrow>
          length (filter (\<lambda>it. origin it = Origin_due) queue) = 6
          \<and> length (filter (\<lambda>it. origin it = Origin_in_progress) queue) = 3
          \<and> length (filter (\<lambda>it. origin it = Origin_new) queue) = 1
          \<and> length queue = 10)"
proof -
  let ?sz = "config_size config"
  let ?st = "bucketSelection rnd config now filtered"
  note b = dueTarget_bounds[OF nn] inProgressTarget_bounds[OF nn] targets_sum[OF nn]
  have la: "length (take (nat (dueTarget ?sz)) (dueSorted (dueWords now filtered)))
             = nat (dueTarget ?sz)"
    using d b by (simp add: dueSorted_def)
  have lb: "length (take (nat (inProgressTarget ?sz)) (inProgressSorted (inProgressWords now filtered)))
             = nat (inProgressTarget ?sz)"
    using i b by (simp add: inProgressSorted_def)
  have lc: "length (take (nat (newTarget ?sz)) (newWords filtered)) = nat (newTarget ?sz)"
    using n b by simp
  have org: "map origin (fst ?st) = replicate (nat (dueTarget ?sz)) Origin_due
       @ replicate (nat (inProgressTarget ?sz)) Origin_in_progress
       @ replicate (nat (newTarget ?sz)) Origin_new"
    using bucketSelection_origins[OF nn, of rnd now filtered] unfolding la lb lc .
  have len: "int (length (fst ?st)) = ?sz"
    using arg_cong[OF org, of length] b by simp
  then have bf: "backfill rnd config filtered ?st = ?st"
    by (simp add: backfill_def Let_def)
  have qm: "mset queue = mset (fst ?st)"
    unfolding q buildSession_def Let_def flt [symmetric] bf by (rule shuffle_mset[OF rnd])
  have cnt: "length (filter (\<lambda>it. origin it = x) queue)
      = length (filter (\<lambda>y. y = x) (map origin (fst ?st)))" for x
    using count_filter_mset_eq[OF qm] count_origin by metis
  have c1: "int (length (filter (\<lambda>it. origin it = Origin_due) queue)) = dueTarget ?sz"
    unfolding cnt org using b by simp
  have c2: "int (length (filter (\<lambda>it. origin it = Origin_in_progress) queue)) = inProgressTarget ?sz"
    unfolding cnt org using b by simp
  have c3: "int (length (filter (\<lambda>it. origin it = Origin_new) queue)) = newTarget ?sz"
    unfolding cnt org using b by simp
  have c4: "int (length queue) = ?sz"
    using arg_cong[OF qm, of size] len by simp
  have t10: "dueTarget 10 = 6" "inProgressTarget 10 = 3" "newTarget 10 = 1"
    by code_simp+
  have c5: "?sz = 10 \<longrightarrow>
          length (filter (\<lambda>it. origin it = Origin_due) queue) = 6
          \<and> length (filter (\<lambda>it. origin it = Origin_in_progress) queue) = 3
          \<and> length (filter (\<lambda>it. origin it = Origin_new) queue) = 1
          \<and> length queue = 10"
    using c1 c2 c3 c4 t10 by auto
  show ?thesis using c1 c2 c3 c4 c5
    by (simp add: dueTarget_def inProgressTarget_def newTarget_def)
qed

text \<open>
  C8, at the pool of 6 due words, 10 words in progress that are not due and 20 new words,
  with size 10 and every random number 1/2.
\<close>

theorem buildSession_bucket_counts_witness:
  "length (dueWords 1000 (filter (matchesConfig (demo_config 10)) demo_pool)) = 6
   \<and> length (inProgressWords 1000 (filter (matchesConfig (demo_config 10)) demo_pool)) = 10
   \<and> length (newWords (filter (matchesConfig (demo_config 10)) demo_pool)) = 20
   \<and> length (filter (\<lambda>it. origin it = Origin_due)
        (buildSession (\<lambda>k. 1 / 2) demo_pool (demo_config 10) 1000)) = 6
   \<and> length (filter (\<lambda>it. origin it = Origin_in_progress)
        (buildSession (\<lambda>k. 1 / 2) demo_pool (demo_config 10) 1000)) = 3
   \<and> length (filter (\<lambda>it. origin it = Origin_new)
        (buildSession (\<lambda>k. 1 / 2) demo_pool (demo_config 10) 1000)) = 1
   \<and> length (buildSession (\<lambda>k. 1 / 2) demo_pool (demo_config 10) 1000) = 10"
proof -
  have sz: "config_size (demo_config 10) = 10" by (simp add: demo_config_def)
  have nn: "0 \<le> config_size (demo_config 10)" by (simp add: sz)
  have rnd: "\<forall>k::nat. 0 \<le> (1 / 2 :: rat) \<and> (1 / 2 :: rat) < 1" by simp
  have l: "length (dueWords 1000 (filter (matchesConfig (demo_config 10)) demo_pool)) = 6"
    "length (inProgressWords 1000 (filter (matchesConfig (demo_config 10)) demo_pool)) = 10"
    "length (newWords (filter (matchesConfig (demo_config 10)) demo_pool)) = 20"
    by code_simp+
  have t: "dueTarget 10 = 6" "inProgressTarget 10 = 3" "newTarget 10 = 1"
    by code_simp+
  have b: "dueTarget (config_size (demo_config 10))
        \<le> int (length (dueWords 1000 (filter (matchesConfig (demo_config 10)) demo_pool)))"
    "inProgressTarget (config_size (demo_config 10))
        \<le> int (length (inProgressWords 1000 (filter (matchesConfig (demo_config 10)) demo_pool)))"
    "newTarget (config_size (demo_config 10))
        \<le> int (length (newWords (filter (matchesConfig (demo_config 10)) demo_pool)))"
    unfolding sz l t by simp_all
  show ?thesis
    using buildSession_bucket_counts [OF nn rnd refl b refl] l sz by simp
qed

section \<open>The session runtime\<close>








subsection \<open>The offset of a reinsertion\<close>




subsection \<open>Retry and postponement\<close>



subsection \<open>Ratings on a finished session\<close>





section \<open>Import\<close>

lemma clearAll_putTopics: "clearAll (foldl (\<lambda>d topic. putTopic topic d) d ts) = clearAll d"
  by (induction ts arbitrary: d) (simp_all add: clearAll_def putTopic_def)

lemma clearAll_putWords: "clearAll (foldl (\<lambda>d word. putWord word d) d ws) = clearAll d"
  by (induction ws arbitrary: d) (simp_all add: clearAll_def putWord_def)

lemma clearAll_idem: "clearAll (clearAll d) = clearAll d"
  by (simp add: clearAll_def)

text \<open>
  Claim C9: with the replace policy, importing a snapshot of schema version 1 that has
  both lists a second time gives the state that the first import gave: the store, the
  topics and the words in memory, and everything else.
\<close>

theorem handleImport_replace_idempotent:
  assumes "importMode s = Replace"
    and "data_topics p = Some ts"
    and "data_words p = Some ws"
    and "schemaVersion p = 1"
  shows "handleImport (Some p) (handleImport (Some p) s) = handleImport (Some p) s"
  using assms
  by (simp add: handleImport_def SCHEMA_VERSION_def notify_def Let_def
      clearAll_putTopics clearAll_putWords clearAll_idem)

text \<open>C9, at the snapshot of one topic and two records, imported into an empty application.\<close>

theorem handleImport_replace_idempotent_witness:
  "importMode ((demo_app [] (demo_config 2))\<lparr>importMode := Replace\<rparr>) = Replace
   \<and> schemaVersion demo_snapshot = 1
   \<and> data_topics demo_snapshot \<noteq> None
   \<and> data_words demo_snapshot \<noteq> None
   \<and> map word_id (words demo_imported) = [''w1'', ''w1'']
   \<and> handleImport (Some demo_snapshot) demo_imported = demo_imported"
proof -
  have m: "importMode ((demo_app [] (demo_config 2))\<lparr>importMode := Replace\<rparr>) = Replace"
    by (simp add: demo_app_def)
  have t: "data_topics demo_snapshot
             = Some [\<lparr>topic_topicId = ''t1'', topic_name = ''Travel'', topic_createdAt = 0\<rparr>]"
    and w: "data_words demo_snapshot
             = Some [demo_word ''w1'' In_progress None, demo_word ''w1'' Completed (Some 5000)]"
    and v: "schemaVersion demo_snapshot = 1"
    by (simp_all add: demo_snapshot_def)
  have i: "map word_id (words demo_imported) = [''w1'', ''w1'']" by code_simp
  show ?thesis
    using handleImport_replace_idempotent [OF m t w v] m t w v i
    by (simp add: demo_imported_def)
qed

end
